theory Spec2Isabelle
  imports Complex_Main "HOL-Library.Sublist"
begin

section \<open>Strings and numbers of the host language\<close>

text \<open>
  Strings are character lists. The case folding \<^verbatim>\<open>String.prototype.toLowerCase\<close> is
  the platform's (it follows the Unicode case mappings) and is a parameter
  \<open>toLowerCase\<close> of the definitions that use it.
\<close>

text \<open>\<^verbatim>\<open>s.includes(t)\<close>: \<open>t\<close> occurs in \<open>s\<close> as a contiguous substring.\<close>

fun includes_str :: "string \<Rightarrow> string \<Rightarrow> bool" where
  "includes_str [] t = (t = [])"
| "includes_str (c # cs) t = (prefix t (c # cs) \<or> includes_str cs t)"

text \<open>The regular expression class \<^verbatim>\<open>\d\<close>.\<close>

definition isDigit :: "char \<Rightarrow> bool" where
  "isDigit c = (c \<in> set ''0123456789'')"

text \<open>A non-negative integer inside a template literal: its decimal digits.\<close>

definition digit_char :: "nat \<Rightarrow> char" where
  "digit_char d = ''0123456789'' ! d"

fun decimal :: "nat \<Rightarrow> string" where
  "decimal n =
     (if n < 10 then [digit_char n]
      else decimal (n div 10) @ [digit_char (n mod 10)])"

declare decimal.simps [simp del]

text \<open>\<^verbatim>\<open>v || d\<close> on an optional string: \<open>undefined\<close> and the empty string are falsy.\<close>

definition or_default :: "string option \<Rightarrow> string \<Rightarrow> string" where
  "or_default v d = (case v of None \<Rightarrow> d | Some s \<Rightarrow> if s = [] then d else s)"

text \<open>
  \<^verbatim>\<open>Array.prototype.slice(start, end)\<close> with its treatment of negative and
  out-of-range indices.
\<close>

definition slice :: "'a list \<Rightarrow> int \<Rightarrow> int \<Rightarrow> 'a list" where
  "slice xs start finish =
     (let len = int (length xs);
          k = (if start < 0 then max (len + start) 0 else min start len);
          final = (if finish < 0 then max (len + finish) 0 else min finish len)
      in take (nat (final - k)) (drop (nat k) xs))"

section \<open>Data model\<close>

text \<open>
  Modelled from the spec: the type declaration \<^verbatim>\<open>Lead\<close> of \<^verbatim>\<open>src/types\<close> is not
  among the sources. A lead has an optional store-assigned
  identity, the six canonical string attributes, and the optional customer comment and
  follow-up fields. The field \<^verbatim>\<open>id\<close> is named \<open>lead_id\<close> and the field
  \<^verbatim>\<open>whatsapp_number_\<close> is named \<open>whatsapp_number\<close> here.
\<close>

record lead =
  lead_id :: "string option"
  created_time :: string
  platform :: string
  name :: string
  whatsapp_number :: string
  lead_status :: string
  comments :: string
  customerComment :: "string option"
  followUpDate :: "string option"
  followUpTime :: "string option"

text \<open>
  Modelled from the spec: the type \<^verbatim>\<open>KPI\<close> of \<^verbatim>\<open>src/types\<close> is not among the
  sources. A KPI card has a title, a count and a colour (the icon is presentation only).
\<close>

record kpi =
  kpi_title :: string
  kpi_value :: nat
  kpi_color :: string

text \<open>
  What a rejected promise or a \<^verbatim>\<open>throw\<close> carries: an axios error with the status of
  its response (if there was a response) and its message, any other \<^verbatim>\<open>Error\<close> with
  its message, or a value that is not an \<^verbatim>\<open>Error\<close> at all.
\<close>

datatype thrown = AxiosError "nat option" string | Error string | NonError

section \<open>Sheet sync (services/api)\<close>

definition BASE_API_URL :: string where
  "BASE_API_URL =
     ''https://asia-south1-starzapp.cloudfunctions.net/whatsAppWebHook-2/fetch-individual-client-leads''"

definition generateLeadHash :: "lead \<Rightarrow> string" where
  "generateLeadHash lead = whatsapp_number lead @ ''_'' @ created_time lead"

record user =
  phoneNumber :: "string option"

text \<open>
  Modelled from the spec: \<^verbatim>\<open>getLeadsCol\<close> of \<^verbatim>\<open>services/firebase\<close> is not among
  the sources; it denotes the leads collection of the signed-in user, here \<open>leadsCol\<close>:
  the documents in creation order, each a store-assigned key with its data. \<open>userDocs\<close>
  holds the documents addressed by a path (each a map from field names to values).
\<close>

record firestore =
  userDocs :: "string \<rightharpoonup> (string \<rightharpoonup> string)"
  leadsCol :: "(string \<times> lead) list"

datatype fs_op = OpSetDoc | OpGetDocs | OpAddDoc

text \<open>
  The environment of one run: the signed-in user, the clock, the answer of the HTTP feed
  to a URL, which store operations are rejected (and with what), and the keys the store
  generates for new documents.
\<close>

record env =
  currentUser :: "user option"
  now :: string
  axios_get :: "string \<Rightarrow> thrown + lead list"
  fs_fault :: "fs_op \<Rightarrow> thrown option"
  autoId :: "nat \<Rightarrow> string"

definition setDoc_merge ::
  "env \<Rightarrow> string \<Rightarrow> (string \<rightharpoonup> string) \<Rightarrow> firestore \<Rightarrow> thrown + firestore" where
  "setDoc_merge e path flds fs =
     (case fs_fault e OpSetDoc of
        Some err \<Rightarrow> Inl err
      | None \<Rightarrow>
          Inr (fs\<lparr>userDocs := (userDocs fs)(path \<mapsto>
                 (case userDocs fs path of None \<Rightarrow> flds | Some old \<Rightarrow> old ++ flds))\<rparr>))"

definition getDocs :: "env \<Rightarrow> firestore \<Rightarrow> thrown + (string \<times> lead) list" where
  "getDocs e fs =
     (case fs_fault e OpGetDocs of Some err \<Rightarrow> Inl err | None \<Rightarrow> Inr (leadsCol fs))"

definition addDoc :: "env \<Rightarrow> lead \<Rightarrow> firestore \<Rightarrow> thrown + firestore" where
  "addDoc e l fs =
     (case fs_fault e OpAddDoc of
        Some err \<Rightarrow> Inl err
      | None \<Rightarrow> Inr (fs\<lparr>leadsCol := leadsCol fs @ [(autoId e (length (leadsCol fs)), l)]\<rparr>))"

text \<open>\<^verbatim>\<open>Promise.all(newLeads.map(lead => addDoc(getLeadsCol(), lead)))\<close>\<close>

fun addDocs :: "env \<Rightarrow> lead list \<Rightarrow> firestore \<Rightarrow> thrown + firestore" where
  "addDocs e [] fs = Inr fs"
| "addDocs e (l # ls) fs =
     (case addDoc e l fs of Inl err \<Rightarrow> Inl err | Inr fs' \<Rightarrow> addDocs e ls fs')"

definition sanitize :: "string \<Rightarrow> string" where
  "sanitize phone = filter isDigit phone"

definition sheetName_of :: "string \<Rightarrow> string" where
  "sheetName_of sanitizedPhone = drop (length sanitizedPhone - 10) sanitizedPhone"

definition API_URL_of :: "string \<Rightarrow> string" where
  "API_URL_of sheetName =
     BASE_API_URL @ ''?sheetId=1D87OvwIf9Nw9UPHL93CzFyjQGzlO_vDM-jH0IN21jsU&sheetName='' @ sheetName"

definition newLeads_of :: "lead list \<Rightarrow> lead list \<Rightarrow> lead list" where
  "newLeads_of firestoreLeads sheetsLeads =
     (let existingHashes = set (map generateLeadHash firestoreLeads)
      in filter (\<lambda>sheetLead. generateLeadHash sheetLead \<notin> existingHashes) sheetsLeads)"

definition auth_error :: thrown where
  "auth_error = Error ''User not authenticated or phone number missing!!''"

text \<open>
  \<^verbatim>\<open>syncLeadsFromSheets\<close>. The result pairs what the promise settles with and the
  store as the run leaves it; the \<^verbatim>\<open>catch\<close> block logs and rethrows the same error.
\<close>

definition syncLeadsFromSheets :: "env \<Rightarrow> firestore \<Rightarrow> (thrown + unit) \<times> firestore" where
  "syncLeadsFromSheets e fs =
     (case currentUser e of
        None \<Rightarrow> (Inl auth_error, fs)
      | Some u \<Rightarrow>
         (case phoneNumber u of
            None \<Rightarrow> (Inl auth_error, fs)
          | Some phone \<Rightarrow>
             if phone = [] then (Inl auth_error, fs)
             else
               let sanitizedPhone = sanitize phone;
                   sheetName = sheetName_of sanitizedPhone;
                   url = API_URL_of sheetName
               in (case setDoc_merge e (''crm_users/'' @ sanitizedPhone)
                          [''source'' \<mapsto> ''sheet'', ''lastSyncedAt'' \<mapsto> now e] fs of
                     Inl err \<Rightarrow> (Inl err, fs)
                   | Inr fs1 \<Rightarrow>
                      (case axios_get e url of
                         Inl err \<Rightarrow> (Inl err, fs1)
                       | Inr sheetsLeads \<Rightarrow>
                          (case getDocs e fs1 of
                             Inl err \<Rightarrow> (Inl err, fs1)
                           | Inr docs \<Rightarrow>
                              let firestoreLeads = map snd docs;
                                  newLeads = newLeads_of firestoreLeads sheetsLeads
                              in (case addDocs e newLeads fs1 of
                                    Inl err \<Rightarrow> (Inl err, fs1)
                                  | Inr fs2 \<Rightarrow> (Inr (), fs2)))))))"

text \<open>
  \<^verbatim>\<open>fetchLeadsFromFirestore\<close>: \<^verbatim>\<open>{ id: doc.id, ...doc.data() }\<close>; an \<^verbatim>\<open>id\<close>
  stored in the data overrides the document key.
\<close>

definition fetchLeadsFromFirestore :: "env \<Rightarrow> firestore \<Rightarrow> thrown + lead list" where
  "fetchLeadsFromFirestore e fs =
     (case getDocs e fs of
        Inl err \<Rightarrow> Inl err
      | Inr docs \<Rightarrow>
          Inr (map (\<lambda>(key, d). d\<lparr>lead_id :=
                 (case lead_id d of None \<Rightarrow> Some key | Some i \<Rightarrow> Some i)\<rparr>) docs))"

section \<open>Dashboard (pages/Dashboard)\<close>

record dashboard =
  leads :: "lead list"
  loading :: bool
  error :: string
  warning :: "string option"
  kpis :: "kpi list"

definition initial_dashboard :: dashboard where
  "initial_dashboard = \<lparr>leads = [], loading = True, error = [], warning = None, kpis = []\<rparr>"

definition computeKPIs :: "lead list \<Rightarrow> kpi list" where
  "computeKPIs list =
     (let meetingDone = length (filter (\<lambda>l. lead_status l = ''Meeting Done'') list);
          dealDone = length (filter (\<lambda>l. lead_status l = ''Deal done'') list)
      in [\<lparr>kpi_title = ''Total Leads'', kpi_value = length list, kpi_color = ''blue''\<rparr>,
          \<lparr>kpi_title = ''Meeting Done'', kpi_value = meetingDone, kpi_color = ''orange''\<rparr>,
          \<lparr>kpi_title = ''Deal Done'', kpi_value = dealDone, kpi_color = ''green''\<rparr>])"

text \<open>\<^verbatim>\<open>setLeads(list); computeKPIs(list)\<close>\<close>

definition setLeads :: "lead list \<Rightarrow> dashboard \<Rightarrow> dashboard" where
  "setLeads list d = d\<lparr>leads := list, kpis := computeKPIs list\<rparr>"

text \<open>The \<^verbatim>\<open>catch\<close> block of \<^verbatim>\<open>load\<close>.\<close>

definition load_catch :: "thrown \<Rightarrow> dashboard \<Rightarrow> dashboard" where
  "load_catch err d =
     (case err of
        AxiosError status msg \<Rightarrow>
          if status = Some 500 then d\<lparr>warning := Some ''No leads available for your account''\<rparr>
          else d\<lparr>error := ''Failed to load leads: '' @ msg\<rparr>
      | Error msg \<Rightarrow> d\<lparr>error := ''Failed to load leads: '' @ msg\<rparr>
      | NonError \<Rightarrow> d\<lparr>error := ''Failed to load leads due to an unknown error''\<rparr>)"

definition load_finally :: "dashboard \<Rightarrow> dashboard" where
  "load_finally d = d\<lparr>loading := False\<rparr>"

definition load :: "env \<Rightarrow> firestore \<Rightarrow> dashboard \<Rightarrow> dashboard \<times> firestore" where
  "load e fs d =
     (let d0 = d\<lparr>loading := True\<rparr> in
      case fetchLeadsFromFirestore e fs of
        Inl err \<Rightarrow> (load_finally (load_catch err d0), fs)
      | Inr initial \<Rightarrow>
          let d1 = setLeads initial d0 in
          (case syncLeadsFromSheets e fs of
             (Inl err, fs1) \<Rightarrow> (load_finally (load_catch err d1), fs1)
           | (Inr _, fs1) \<Rightarrow>
               (case fetchLeadsFromFirestore e fs1 of
                  Inl err \<Rightarrow> (load_finally (load_catch err d1), fs1)
                | Inr updated \<Rightarrow> (load_finally (setLeads updated d1), fs1))))"

text \<open>
  What the component returns: the spinner while loading, the yellow box (whose text is the
  \<open>warning\<close> state) when \<open>error\<close> is non-empty, the KPI cards and the table otherwise.
\<close>

datatype view = Spinner | WarningBox "string option" | MainView "kpi list" "lead list"

definition render :: "dashboard \<Rightarrow> view" where
  "render d =
     (if loading d then Spinner
      else if error d \<noteq> [] then WarningBox (warning d)
      else MainView (kpis d) (leads d))"

subsection \<open>CSV import\<close>

text \<open>
  A row as the CSV parser delivers it with \<^verbatim>\<open>header: true\<close>: a column that the file
  does not have is absent from the row.
\<close>

record csvrow =
  row_created_time :: "string option"
  row_platform :: "string option"
  row_name :: "string option"
  row_whatsapp_number :: "string option"
  row_lead_status :: "string option"
  row_comments :: "string option"

text \<open>
  An error as the parser reports it: its type, code and message, and the row it is about
  (absent for an error that concerns the file as a whole).
\<close>

record parse_error =
  err_type :: string
  err_code :: string
  err_message :: string
  err_row :: "nat option"

text \<open>The parser's result: the rows and the errors it reports.\<close>

record parse_result =
  data :: "csvrow list"
  errors :: "parse_error list"

text \<open>
  \<^verbatim>\<open>parseCSV\<close>. The CSV parser is a library and is taken as a parameter, as is the
  clock: \<open>Date_now index\<close> is the reading of the clock (in milliseconds) when the row at
  \<open>index\<close> is converted, and \<open>toISOString\<close> prints a reading.
\<close>

definition row_to_lead :: "(nat \<Rightarrow> nat) \<Rightarrow> (nat \<Rightarrow> string) \<Rightarrow> nat \<Rightarrow> csvrow \<Rightarrow> lead" where
  "row_to_lead Date_now toISOString index row =
     \<lparr>lead_id = Some (''imported-'' @ decimal (Date_now index) @ ''-'' @ decimal index),
      created_time = or_default (row_created_time row) (toISOString (Date_now index)),
      platform = or_default (row_platform row) [],
      name = or_default (row_name row) [],
      whatsapp_number = or_default (row_whatsapp_number row) [],
      lead_status = or_default (row_lead_status row) ''New Lead'',
      comments = or_default (row_comments row) [],
      customerComment = None, followUpDate = None, followUpTime = None\<rparr>"

definition parseCSV ::
  "(string \<Rightarrow> parse_result) \<Rightarrow> (nat \<Rightarrow> nat) \<Rightarrow> (nat \<Rightarrow> string) \<Rightarrow> string \<Rightarrow> thrown + lead list" where
  "parseCSV Papa_parse Date_now toISOString csvText =
     (let results = Papa_parse csvText in
      if length (errors results) > 0 then Inl (Error ''Invalid CSV format'')
      else Inr (map (\<lambda>(index, row). row_to_lead Date_now toISOString index row)
                  (enumerate 0 (data results))))"

subsection \<open>Handlers that edit the in-memory list\<close>

definition handleFollowUpScheduled :: "string \<Rightarrow> string \<Rightarrow> string \<Rightarrow> lead list \<Rightarrow> lead list" where
  "handleFollowUpScheduled leadId date time ls =
     map (\<lambda>l. if lead_id l = Some leadId
               then l\<lparr>followUpDate := Some date, followUpTime := Some time\<rparr> else l) ls"

definition handleStatusUpdate :: "string \<Rightarrow> string \<Rightarrow> lead list \<Rightarrow> lead list" where
  "handleStatusUpdate leadId newStatus ls =
     map (\<lambda>l. if lead_id l = Some leadId then l\<lparr>lead_status := newStatus\<rparr> else l) ls"

definition handleUpdateCustomerComment :: "string \<Rightarrow> string \<Rightarrow> lead list \<Rightarrow> lead list" where
  "handleUpdateCustomerComment leadId comment ls =
     map (\<lambda>l. if lead_id l = Some leadId then l\<lparr>customerComment := Some comment\<rparr> else l) ls"

section \<open>Leads table (components/dashboard/LeadsTable)\<close>

definition itemsPerPage :: nat where
  "itemsPerPage = 20"

definition matchesSearch :: "(string \<Rightarrow> string) \<Rightarrow> string \<Rightarrow> lead \<Rightarrow> bool" where
  "matchesSearch toLowerCase searchTerm l =
     (includes_str (toLowerCase (name l)) (toLowerCase searchTerm)
      \<or> includes_str (whatsapp_number l) searchTerm
      \<or> includes_str (toLowerCase (comments l)) (toLowerCase searchTerm))"

definition matchesStatus :: "string \<Rightarrow> lead \<Rightarrow> bool" where
  "matchesStatus statusFilter l = (statusFilter = ''all'' \<or> lead_status l = statusFilter)"

definition matchesPlatform :: "string \<Rightarrow> lead \<Rightarrow> bool" where
  "matchesPlatform platformFilter l = (platformFilter = ''all'' \<or> platform l = platformFilter)"

text \<open>
  The comparator of \<^verbatim>\<open>filteredLeads.sort\<close> orders by \<^verbatim>\<open>new Date(created_time).getTime()\<close>,
  latest first; the sort is stable. The date parser is the platform's and is a parameter
  (a text it cannot parse makes the comparator yield \<open>NaN\<close>; that case is outside
  this model).
\<close>

definition filteredLeads ::
  "(string \<Rightarrow> string) \<Rightarrow> (string \<Rightarrow> int) \<Rightarrow> lead list \<Rightarrow> string \<Rightarrow> string \<Rightarrow> string
     \<Rightarrow> lead list" where
  "filteredLeads toLowerCase getTime ls searchTerm statusFilter platformFilter =
     sort_key (\<lambda>l. - getTime (created_time l))
       (filter (\<lambda>l. matchesSearch toLowerCase searchTerm l \<and> matchesStatus statusFilter l
                    \<and> matchesPlatform platformFilter l) ls)"

text \<open>
  \<^verbatim>\<open>Math.ceil(filteredLeads.length / itemsPerPage)\<close>; the quotient of an array length by
  20 is computed here over the reals.
\<close>

definition totalPages :: "'a list \<Rightarrow> nat" where
  "totalPages filtered = nat \<lceil>real (length filtered) / real itemsPerPage\<rceil>"

definition paginatedLeads :: "'a list \<Rightarrow> int \<Rightarrow> 'a list" where
  "paginatedLeads filtered currentPage =
     slice filtered ((currentPage - 1) * int itemsPerPage) (currentPage * int itemsPerPage)"

section \<open>The spec's notions, for comparison\<close>

text \<open>
  A search term occurs case-insensitively in a text when it occurs in it once both are
  case-folded.
\<close>

definition ci_substring :: "(string \<Rightarrow> string) \<Rightarrow> string \<Rightarrow> string \<Rightarrow> bool" where
  "ci_substring toLowerCase t s = includes_str (toLowerCase s) (toLowerCase t)"

definition spec_matchesSearch :: "(string \<Rightarrow> string) \<Rightarrow> string \<Rightarrow> lead \<Rightarrow> bool" where
  "spec_matchesSearch toLowerCase searchTerm l =
     (ci_substring toLowerCase searchTerm (name l)
      \<or> ci_substring toLowerCase searchTerm (whatsapp_number l)
      \<or> ci_substring toLowerCase searchTerm (comments l))"

text \<open>
  The row-level errors of a parser result: those that are about a row. A file whose data
  rows are all well-formed has none.
\<close>

definition row_level_errors :: "parse_result \<Rightarrow> parse_error list" where
  "row_level_errors r = filter (\<lambda>err. err_row err \<noteq> None) (errors r)"

section \<open>Example data\<close>

definition example_lead :: "string \<Rightarrow> string \<Rightarrow> lead" where
  "example_lead w c =
     \<lparr>lead_id = None, created_time = c, platform = [], name = [], whatsapp_number = w,
      lead_status = ''New Lead'', comments = [], customerComment = None,
      followUpDate = None, followUpTime = None\<rparr>"

definition stored_lead :: "string \<Rightarrow> string \<Rightarrow> lead" where
  "stored_lead i st = (example_lead ''919876543210'' ''2024-01-01T00:00:00Z'')
     \<lparr>lead_id := Some i, lead_status := st\<rparr>"

text \<open>
  The case folding of ASCII text (\<open>A\<close>..\<open>Z\<close> become \<open>a\<close>..\<open>z\<close>, every other character is
  kept), for the examples, whose texts are ASCII.
\<close>

definition ascii_toLowerChar :: "char \<Rightarrow> char" where
  "ascii_toLowerChar c =
     (case map_of (zip ''ABCDEFGHIJKLMNOPQRSTUVWXYZ'' ''abcdefghijklmnopqrstuvwxyz'') c of
        None \<Rightarrow> c
      | Some d \<Rightarrow> d)"

definition ascii_toLowerCase :: "string \<Rightarrow> string" where
  "ascii_toLowerCase s = map ascii_toLowerChar s"

text \<open>
  Parser answers: for a file with a ragged second row, for a clean two-row file, and for
  the one-column file \<open>one_column_csv\<close>, where the parser finds no delimiter to detect,
  falls back to the comma and reports that as an error that is not about any row.
\<close>

definition example_row :: csvrow where
  "example_row =
     \<lparr>row_created_time = Some ''2024-01-01T00:00:00Z'', row_platform = Some ''fb'',
      row_name = Some ''Jane'', row_whatsapp_number = Some ''919876543210'',
      row_lead_status = Some [], row_comments = Some ''Interested''\<rparr>"

definition ragged_parse :: "string \<Rightarrow> parse_result" where
  "ragged_parse csvText =
     \<lparr>data = [example_row, example_row\<lparr>row_comments := None\<rparr>],
      errors = [\<lparr>err_type = ''FieldMismatch'', err_code = ''TooFewFields'',
                 err_message = ''Too few fields: expected 6 fields but parsed 5'',
                 err_row = Some 1\<rparr>]\<rparr>"

definition one_column_csv :: string where
  "one_column_csv = ''name'' @ [CHR 0x0A] @ ''Jane'' @ [CHR 0x0A] @ ''Raj'' @ [CHR 0x0A]"

definition one_column_row :: "string \<Rightarrow> csvrow" where
  "one_column_row n =
     \<lparr>row_created_time = None, row_platform = None, row_name = Some n,
      row_whatsapp_number = None, row_lead_status = None, row_comments = None\<rparr>"

definition one_column_parse :: "string \<Rightarrow> parse_result" where
  "one_column_parse csvText =
     \<lparr>data = [one_column_row ''Jane'', one_column_row ''Raj''],
      errors = [\<lparr>err_type = ''Delimiter'', err_code = ''UndetectableDelimiter'',
                 err_message = ''Unable to auto-detect delimiting character; defaulted to ''
                   @ [CHR 0x27] @ '','' @ [CHR 0x27],
                 err_row = None\<rparr>]\<rparr>"

definition clean_parse :: "string \<Rightarrow> parse_result" where
  "clean_parse csvText =
     \<lparr>data = [example_row, example_row\<lparr>row_created_time := None, row_name := Some ''Raj''\<rparr>],
      errors = []\<rparr>"

definition jane_lead :: lead where
  "jane_lead = (stored_lead ''a'' ''New Lead'')\<lparr>name := ''Jane Doe'', platform := ''fb''\<rparr>"

definition example_clock :: "nat \<Rightarrow> nat" where
  "example_clock index = 1700000000000 + index"

definition example_iso :: "nat \<Rightarrow> string" where
  "example_iso t = ''2023-11-14T22:13:20.000Z''"

definition zero_getTime :: "string \<Rightarrow> int" where
  "zero_getTime s = 0"

text \<open>
  A signed-in user whose sheet holds two leads, the first of which is already stored
  (with a status that was edited since), and variations of that environment: a later
  second run, a feed that answers with status 500, and nobody signed in.
\<close>

definition example_user :: user where
  "example_user = \<lparr>phoneNumber = Some ''+91 98765-43210''\<rparr>"

definition example_feed :: "lead list" where
  "example_feed =
     [example_lead ''919876543210'' ''2024-01-01T00:00:00Z'',
      example_lead ''919812345678'' ''2024-01-02T00:00:00Z'']"

definition example_env :: env where
  "example_env =
     \<lparr>currentUser = Some example_user,
      now = ''2024-01-03T00:00:00.000Z'',
      axios_get = (\<lambda>url. if url = API_URL_of ''9876543210'' then Inr example_feed
                         else Inl (AxiosError (Some 404) ''Request failed with status code 404'')),
      fs_fault = (\<lambda>op. None),
      autoId = (\<lambda>n. ''doc'' @ decimal n)\<rparr>"

definition second_env :: env where
  "second_env = example_env\<lparr>now := ''2024-01-04T00:00:00.000Z'', autoId := (\<lambda>n. ''later'' @ decimal n)\<rparr>"

definition failing_env :: env where
  "failing_env = example_env
     \<lparr>axios_get := (\<lambda>url. Inl (AxiosError (Some 500) ''Request failed with status code 500''))\<rparr>"

definition signed_out_env :: env where
  "signed_out_env = example_env\<lparr>currentUser := None\<rparr>"

definition example_store :: firestore where
  "example_store =
     \<lparr>userDocs = Map.empty,
      leadsCol = [(''doc0'', (example_lead ''919876543210'' ''2024-01-01T00:00:00Z'')
                               \<lparr>lead_status := ''Meeting Done''\<rparr>)]\<rparr>"

section \<open>Properties\<close>

subsection \<open>The natural key\<close>

lemma takeWhile_sep: "c \<notin> set zs \<Longrightarrow> takeWhile (\<lambda>x. x \<noteq> c) (zs @ c # ws) = zs"
  by (induction zs) auto

lemma split_at_sep:
  assumes "c \<notin> set xs" and "c \<notin> set xs'" and "xs @ c # ys = xs' @ c # ys'"
  shows "xs = xs' \<and> ys = ys'"
proof -
  have "takeWhile (\<lambda>x. x \<noteq> c) (xs @ c # ys) = xs"
    using assms(1) by (rule takeWhile_sep)
  moreover have "takeWhile (\<lambda>x. x \<noteq> c) (xs' @ c # ys') = xs'"
    using assms(2) by (rule takeWhile_sep)
  ultimately have "xs = xs'"
    using assms(3) by simp
  with assms(3) show ?thesis by simp
qed

text \<open>
  Claim C2, as stated, fails: the key joins the two components with an underscore, so a
  number that itself contains an underscore can collide with a different pair. The leads
  with (number, time) = (\<open>1_2\<close>, \<open>3\<close>) and (\<open>1\<close>, \<open>2_3\<close>) both have the key \<open>1_2_3\<close>.
\<close>

theorem generateLeadHash_collision:
  "\<not> (generateLeadHash (example_lead ''1_2'' ''3'') = generateLeadHash (example_lead ''1'' ''2_3'')
      \<longleftrightarrow> (whatsapp_number (example_lead ''1_2'' ''3''), created_time (example_lead ''1_2'' ''3''))
          = (whatsapp_number (example_lead ''1'' ''2_3''), created_time (example_lead ''1'' ''2_3'')))"
  by (simp add: generateLeadHash_def example_lead_def)

text \<open>
  Claim C2, amended: for two leads whose numbers contain no underscore, the natural keys
  are equal if and only if the pairs (number, created time) are equal.
\<close>

theorem generateLeadHash_exact:
  assumes "CHR ''_'' \<notin> set (whatsapp_number a)" and "CHR ''_'' \<notin> set (whatsapp_number b)"
  shows "generateLeadHash a = generateLeadHash b \<longleftrightarrow>
    (whatsapp_number a, created_time a) = (whatsapp_number b, created_time b)"
  using split_at_sep[OF assms, of "created_time a" "created_time b"]
  by (auto simp: generateLeadHash_def)

theorem generateLeadHash_exact_witness:
  "CHR ''_'' \<notin> set (whatsapp_number (example_lead ''919876543210'' ''2024-01-01T00:00:00Z''))
   \<and> CHR ''_'' \<notin> set (whatsapp_number (example_lead ''919876543210'' ''2024-01-02T00:00:00Z''))
   \<and> generateLeadHash (example_lead ''919876543210'' ''2024-01-01T00:00:00Z'')
       \<noteq> generateLeadHash (example_lead ''919876543210'' ''2024-01-02T00:00:00Z'')"
  using generateLeadHash_exact[of "example_lead ''919876543210'' ''2024-01-01T00:00:00Z''"
      "example_lead ''919876543210'' ''2024-01-02T00:00:00Z''"]
  by (simp add: example_lead_def)

subsection \<open>Sheet sync\<close>

lemma setDoc_merge_leadsCol:
  "setDoc_merge e path flds fs = Inr fs' \<Longrightarrow> leadsCol fs' = leadsCol fs"
  by (auto simp: setDoc_merge_def split: option.splits)

lemma setDoc_merge_ok:
  "fs_fault e OpSetDoc = None \<Longrightarrow> \<exists>fs'. setDoc_merge e path flds fs = Inr fs'"
  by (simp add: setDoc_merge_def)

lemma setDoc_merge_fault:
  "setDoc_merge e path flds fs = Inr fs' \<Longrightarrow> fs_fault e OpSetDoc = None"
  by (auto simp: setDoc_merge_def split: option.splits)

lemma getDocs_fault:
  "getDocs e fs = Inr docs \<Longrightarrow> fs_fault e OpGetDocs = None \<and> docs = leadsCol fs"
  by (auto simp: getDocs_def split: option.splits)

text \<open>
  A batch of creates that succeeds appends one document per lead, in order, and leaves
  the documents that were there as they were.
\<close>

lemma addDocs_result:
  "addDocs e ls fs = Inr fs' \<Longrightarrow>
     map snd (leadsCol fs') = map snd (leadsCol fs) @ ls
     \<and> take (length (leadsCol fs)) (leadsCol fs') = leadsCol fs"
proof (induction ls arbitrary: fs)
  case Nil
  then show ?case by simp
next
  case (Cons l ls)
  from Cons.prems obtain fs1 where a: "addDoc e l fs = Inr fs1" and r: "addDocs e ls fs1 = Inr fs'"
    by (auto split: sum.splits)
  from a have c: "leadsCol fs1 = leadsCol fs @ [(autoId e (length (leadsCol fs)), l)]"
    by (auto simp: addDoc_def split: option.splits)
  from Cons.IH[OF r] have m: "map snd (leadsCol fs') = map snd (leadsCol fs1) @ ls"
    and t: "take (length (leadsCol fs1)) (leadsCol fs') = leadsCol fs1"
    by simp_all
  from t have "take (length (leadsCol fs)) (take (length (leadsCol fs1)) (leadsCol fs'))
      = take (length (leadsCol fs)) (leadsCol fs1)"
    by simp
  then have "take (length (leadsCol fs)) (leadsCol fs') = leadsCol fs"
    using c by (simp add: min_def)
  with m c show ?case by simp
qed

lemma addDocs_ok:
  "fs_fault e OpAddDoc = None \<Longrightarrow> \<exists>fs'. addDocs e ls fs = Inr fs'"
  by (induction ls arbitrary: fs) (simp_all add: addDoc_def)

lemma newLeads_of_filter:
  "newLeads_of S I = filter (\<lambda>i. generateLeadHash i \<notin> generateLeadHash ` set S) I"
  by (simp add: newLeads_of_def)

lemma newLeads_of_again: "newLeads_of (S @ newLeads_of S I) I = []"
  by (auto simp: newLeads_of_def filter_empty_conv)

text \<open>The successful path through \<open>syncLeadsFromSheets\<close>, in both directions.\<close>

lemma sync_run:
  assumes "currentUser e = Some u" and "phoneNumber u = Some phone" and "phone \<noteq> []"
    and "setDoc_merge e (''crm_users/'' @ sanitize phone)
           [''source'' \<mapsto> ''sheet'', ''lastSyncedAt'' \<mapsto> now e] fs = Inr fs1"
    and "axios_get e (API_URL_of (sheetName_of (sanitize phone))) = Inr I"
    and "fs_fault e OpGetDocs = None"
    and "addDocs e (newLeads_of (map snd (leadsCol fs)) I) fs1 = Inr fs2"
  shows "syncLeadsFromSheets e fs = (Inr (), fs2)"
  using assms setDoc_merge_leadsCol[OF assms(4)]
  by (simp add: syncLeadsFromSheets_def Let_def getDocs_def)

lemma sync_success:
  assumes "syncLeadsFromSheets e fs = (Inr (), fs2)"
  shows "\<exists>u phone fs1 I. currentUser e = Some u \<and> phoneNumber u = Some phone \<and> phone \<noteq> []
    \<and> setDoc_merge e (''crm_users/'' @ sanitize phone)
           [''source'' \<mapsto> ''sheet'', ''lastSyncedAt'' \<mapsto> now e] fs = Inr fs1
    \<and> axios_get e (API_URL_of (sheetName_of (sanitize phone))) = Inr I
    \<and> fs_fault e OpGetDocs = None
    \<and> addDocs e (newLeads_of (map snd (leadsCol fs)) I) fs1 = Inr fs2"
proof -
  from assms obtain u where u: "currentUser e = Some u"
    by (cases "currentUser e") (simp_all add: syncLeadsFromSheets_def)
  from assms u obtain phone where p: "phoneNumber u = Some phone"
    by (cases "phoneNumber u") (simp_all add: syncLeadsFromSheets_def)
  from assms u p have ne: "phone \<noteq> []"
    by (auto simp: syncLeadsFromSheets_def)
  let ?set = "setDoc_merge e (''crm_users/'' @ sanitize phone)
           [''source'' \<mapsto> ''sheet'', ''lastSyncedAt'' \<mapsto> now e] fs"
  from assms u p ne obtain fs1 where s: "?set = Inr fs1"
    by (cases ?set) (simp_all add: syncLeadsFromSheets_def Let_def)
  let ?get = "axios_get e (API_URL_of (sheetName_of (sanitize phone)))"
  from assms u p ne s obtain I where a: "?get = Inr I"
    by (cases ?get) (simp_all add: syncLeadsFromSheets_def Let_def)
  from assms u p ne s a obtain docs where g: "getDocs e fs1 = Inr docs"
    by (cases "getDocs e fs1") (simp_all add: syncLeadsFromSheets_def Let_def)
  from getDocs_fault[OF g] setDoc_merge_leadsCol[OF s]
  have gf: "fs_fault e OpGetDocs = None" and d: "docs = leadsCol fs"
    by simp_all
  from assms u p ne s a g d have "addDocs e (newLeads_of (map snd (leadsCol fs)) I) fs1 = Inr fs2"
    by (cases "addDocs e (newLeads_of (map snd (leadsCol fs)) I) fs1")
       (simp_all add: syncLeadsFromSheets_def Let_def)
  with u p ne s a gf show ?thesis by blast
qed

lemmas example_defs = example_env_def example_user_def example_feed_def example_store_def
  example_lead_def

lemmas sync_defs = syncLeadsFromSheets_def setDoc_merge_def getDocs_def addDoc_def
  newLeads_of_def generateLeadHash_def sanitize_def sheetName_of_def isDigit_def Let_def

lemma example_sync:
  "syncLeadsFromSheets example_env example_store =
     (Inr (), snd (syncLeadsFromSheets example_env example_store))"
  by (simp add: sync_defs example_defs)

lemma example_sync_store:
  "map snd (leadsCol (snd (syncLeadsFromSheets example_env example_store)))
     = [(example_lead ''919876543210'' ''2024-01-01T00:00:00Z'')\<lparr>lead_status := ''Meeting Done''\<rparr>,
        example_lead ''919812345678'' ''2024-01-02T00:00:00Z'']"
  by (simp add: sync_defs example_defs)

text \<open>
  Claim C1: when a user with a phone number is signed in, the feed answers with the leads
  \<open>sheetsLeads\<close> and no store operation is rejected, the sync succeeds and the stored
  leads afterwards are the leads stored before, unchanged and in place, followed by
  exactly those leads of the feed whose natural key is not the key of a lead stored before.
\<close>

theorem sync_creates_exactly_new:
  assumes "currentUser e = Some u" and "phoneNumber u = Some phone" and "phone \<noteq> []"
    and "\<forall>op. fs_fault e op = None"
    and "axios_get e (API_URL_of (sheetName_of (sanitize phone))) = Inr sheetsLeads"
  shows "fst (syncLeadsFromSheets e fs) = Inr ()
    \<and> map snd (leadsCol (snd (syncLeadsFromSheets e fs)))
        = map snd (leadsCol fs)
          @ filter (\<lambda>i. generateLeadHash i \<notin> generateLeadHash ` snd ` set (leadsCol fs)) sheetsLeads
    \<and> take (length (leadsCol fs)) (leadsCol (snd (syncLeadsFromSheets e fs))) = leadsCol fs"
proof -
  from assms(4) have f: "fs_fault e OpSetDoc = None" "fs_fault e OpGetDocs = None"
    "fs_fault e OpAddDoc = None"
    by simp_all
  from setDoc_merge_ok[OF f(1)] obtain fs1 where
    s: "setDoc_merge e (''crm_users/'' @ sanitize phone)
           [''source'' \<mapsto> ''sheet'', ''lastSyncedAt'' \<mapsto> now e] fs = Inr fs1"
    by blast
  from addDocs_ok[OF f(3)] obtain fs2 where
    a: "addDocs e (newLeads_of (map snd (leadsCol fs)) sheetsLeads) fs1 = Inr fs2"
    by blast
  have run: "syncLeadsFromSheets e fs = (Inr (), fs2)"
    using assms(1,2,3) s assms(5) f(2) a by (rule sync_run)
  from addDocs_result[OF a] setDoc_merge_leadsCol[OF s]
  have "map snd (leadsCol fs2)
      = map snd (leadsCol fs) @ newLeads_of (map snd (leadsCol fs)) sheetsLeads"
    and "take (length (leadsCol fs)) (leadsCol fs2) = leadsCol fs"
    by simp_all
  with run show ?thesis
    by (simp add: newLeads_of_filter)
qed

theorem sync_creates_exactly_new_witness:
  "currentUser example_env = Some example_user
   \<and> phoneNumber example_user = Some ''+91 98765-43210''
   \<and> axios_get example_env (API_URL_of (sheetName_of (sanitize ''+91 98765-43210''))) = Inr example_feed
   \<and> fst (syncLeadsFromSheets example_env example_store) = Inr ()
   \<and> map snd (leadsCol (snd (syncLeadsFromSheets example_env example_store)))
       = [(example_lead ''919876543210'' ''2024-01-01T00:00:00Z'')\<lparr>lead_status := ''Meeting Done''\<rparr>,
          example_lead ''919812345678'' ''2024-01-02T00:00:00Z'']"
proof -
  have u: "currentUser example_env = Some example_user"
    by (simp add: example_env_def)
  have p: "phoneNumber example_user = Some ''+91 98765-43210''"
    by (simp add: example_user_def)
  have ne: "''+91 98765-43210'' \<noteq> []"
    by simp
  have f: "\<forall>op. fs_fault example_env op = None"
    by (simp add: example_env_def)
  have a: "axios_get example_env (API_URL_of (sheetName_of (sanitize ''+91 98765-43210'')))
      = Inr example_feed"
    by (simp add: example_env_def sanitize_def sheetName_of_def isDigit_def)
  from sync_creates_exactly_new[OF u p ne f a, of example_store]
  have "fst (syncLeadsFromSheets example_env example_store) = Inr ()"
    and "map snd (leadsCol (snd (syncLeadsFromSheets example_env example_store)))
       = [(example_lead ''919876543210'' ''2024-01-01T00:00:00Z'')\<lparr>lead_status := ''Meeting Done''\<rparr>,
          example_lead ''919812345678'' ''2024-01-02T00:00:00Z'']"
    by (simp_all add: example_store_def example_feed_def example_lead_def generateLeadHash_def)
  with u p a show ?thesis by simp
qed

text \<open>
  Claim C5: after a sync that succeeded, a second sync against the same feed (same user,
  same feed answers, same store behaviour; a later clock and other generated keys)
  succeeds too and leaves the leads collection exactly as the first run left it.
\<close>

theorem sync_idempotent:
  assumes "syncLeadsFromSheets e fs = (Inr (), fs1)"
  shows "fst (syncLeadsFromSheets (e\<lparr>now := t, autoId := g\<rparr>) fs1) = Inr ()
    \<and> leadsCol (snd (syncLeadsFromSheets (e\<lparr>now := t, autoId := g\<rparr>) fs1)) = leadsCol fs1"
proof -
  let ?e = "e\<lparr>now := t, autoId := g\<rparr>"
  from sync_success[OF assms] obtain u phone fsA I where
    u: "currentUser e = Some u" and p: "phoneNumber u = Some phone" and ne: "phone \<noteq> []"
    and s: "setDoc_merge e (''crm_users/'' @ sanitize phone)
           [''source'' \<mapsto> ''sheet'', ''lastSyncedAt'' \<mapsto> now e] fs = Inr fsA"
    and a: "axios_get e (API_URL_of (sheetName_of (sanitize phone))) = Inr I"
    and gf: "fs_fault e OpGetDocs = None"
    and ad: "addDocs e (newLeads_of (map snd (leadsCol fs)) I) fsA = Inr fs1"
    by blast
  from addDocs_result[OF ad] setDoc_merge_leadsCol[OF s]
  have stored: "map snd (leadsCol fs1)
      = map snd (leadsCol fs) @ newLeads_of (map snd (leadsCol fs)) I"
    by simp
  have none: "newLeads_of (map snd (leadsCol fs1)) I = []"
    by (simp only: stored newLeads_of_again)
  from setDoc_merge_fault[OF s] have "fs_fault ?e OpSetDoc = None"
    by simp
  from setDoc_merge_ok[OF this] obtain fsB where
    s2: "setDoc_merge ?e (''crm_users/'' @ sanitize phone)
           [''source'' \<mapsto> ''sheet'', ''lastSyncedAt'' \<mapsto> now ?e] fs1 = Inr fsB"
    by blast
  have ad2: "addDocs ?e (newLeads_of (map snd (leadsCol fs1)) I) fsB = Inr fsB"
    by (simp only: none addDocs.simps)
  have "syncLeadsFromSheets ?e fs1 = (Inr (), fsB)"
    using _ p ne s2 _ _ ad2 by (rule sync_run) (simp_all add: u a gf)
  with setDoc_merge_leadsCol[OF s2] show ?thesis by simp
qed

theorem sync_idempotent_witness:
  "syncLeadsFromSheets example_env example_store
     = (Inr (), snd (syncLeadsFromSheets example_env example_store))
   \<and> fst (syncLeadsFromSheets second_env (snd (syncLeadsFromSheets example_env example_store)))
     = Inr ()
   \<and> map snd (leadsCol (snd (syncLeadsFromSheets second_env
                               (snd (syncLeadsFromSheets example_env example_store)))))
     = [(example_lead ''919876543210'' ''2024-01-01T00:00:00Z'')\<lparr>lead_status := ''Meeting Done''\<rparr>,
        example_lead ''919812345678'' ''2024-01-02T00:00:00Z'']"
  using sync_idempotent[OF example_sync,
      where t = "''2024-01-04T00:00:00.000Z''" and g = "\<lambda>n. ''later'' @ decimal n"]
    example_sync example_sync_store
  by (simp add: second_env_def)

subsection \<open>KPI counters\<close>

lemma length_filter_count_list: "length (filter (\<lambda>l. f l = v) xs) = count_list (map f xs) v"
  by (induction xs) auto

text \<open>
  Claim C7: the KPI cards are, in this order, \<open>Total Leads\<close> with the length of the list,
  \<open>Meeting Done\<close> with the number of leads whose status is exactly \<open>Meeting Done\<close>, and
  \<open>Deal Done\<close> with the number of leads whose status is exactly \<open>Deal done\<close>.
\<close>

theorem computeKPIs_counts:
  "map (\<lambda>k. (kpi_title k, kpi_value k)) (computeKPIs list) =
     [(''Total Leads'', length list),
      (''Meeting Done'', count_list (map lead_status list) ''Meeting Done''),
      (''Deal Done'', count_list (map lead_status list) ''Deal done'')]"
  by (simp add: computeKPIs_def length_filter_count_list)

subsection \<open>Per-lead updates of the in-memory list\<close>

text \<open>
  Claim C10: each of the three handlers returns a list of the same length in which the
  lead at every position is the old one if its id differs from the target, and the old
  one with only the targeted fields replaced if its id is the target.
\<close>

theorem handlers_frame:
  "length (handleStatusUpdate X newStatus ls) = length ls
   \<and> length (handleFollowUpScheduled X date time ls) = length ls
   \<and> length (handleUpdateCustomerComment X comment ls) = length ls
   \<and> (\<forall>i < length ls.
        (lead_id (ls ! i) \<noteq> Some X \<longrightarrow>
           handleStatusUpdate X newStatus ls ! i = ls ! i
         \<and> handleFollowUpScheduled X date time ls ! i = ls ! i
         \<and> handleUpdateCustomerComment X comment ls ! i = ls ! i)
      \<and> (lead_id (ls ! i) = Some X \<longrightarrow>
           handleStatusUpdate X newStatus ls ! i = (ls ! i)\<lparr>lead_status := newStatus\<rparr>
         \<and> handleFollowUpScheduled X date time ls ! i
             = (ls ! i)\<lparr>followUpDate := Some date, followUpTime := Some time\<rparr>
         \<and> handleUpdateCustomerComment X comment ls ! i
             = (ls ! i)\<lparr>customerComment := Some comment\<rparr>))"
  by (simp add: handleStatusUpdate_def handleFollowUpScheduled_def
      handleUpdateCustomerComment_def)

theorem handlers_frame_witness:
  "handleStatusUpdate ''a'' ''Deal done'' [stored_lead ''a'' ''New Lead'', stored_lead ''b'' ''New Lead'']
     = [stored_lead ''a'' ''Deal done'', stored_lead ''b'' ''New Lead'']"
proof -
  let ?ls = "[stored_lead ''a'' ''New Lead'', stored_lead ''b'' ''New Lead'']"
  let ?r = "handleStatusUpdate ''a'' ''Deal done'' ?ls"
  note fr = handlers_frame[of "''a''" "''Deal done''" ?ls "[]" "[]" "[]"]
  from fr have len: "length ?r = 2"
    by simp
  from fr have "\<forall>i < length ?ls.
      (lead_id (?ls ! i) \<noteq> Some ''a'' \<longrightarrow> ?r ! i = ?ls ! i)
    \<and> (lead_id (?ls ! i) = Some ''a'' \<longrightarrow> ?r ! i = (?ls ! i)\<lparr>lead_status := ''Deal done''\<rparr>)"
    by blast
  then have el: "(lead_id (?ls ! i) \<noteq> Some ''a'' \<longrightarrow> ?r ! i = ?ls ! i)
    \<and> (lead_id (?ls ! i) = Some ''a'' \<longrightarrow> ?r ! i = (?ls ! i)\<lparr>lead_status := ''Deal done''\<rparr>)"
    if "i < 2" for i
    using that by simp
  have r0: "?r ! 0 = stored_lead ''a'' ''Deal done''"
    using el[of 0] by (simp add: stored_lead_def)
  have r1: "?r ! 1 = stored_lead ''b'' ''New Lead''"
    using el[of 1] by (simp add: stored_lead_def)
  show ?thesis
    using len r0 r1 by (simp add: list_eq_iff_nth_eq less_Suc_eq numeral_2_eq_2)
qed

subsection \<open>CSV import\<close>

text \<open>
  Claim C4: whenever the parser reports at least one error for the text, \<open>parseCSV\<close> throws
  the error \<open>Invalid CSV format\<close>; no list of leads is returned, whatever rows the parser
  delivered besides.
\<close>

theorem parseCSV_rejects:
  assumes "errors (Papa_parse csvText) \<noteq> []"
  shows "parseCSV Papa_parse Date_now toISOString csvText = Inl (Error ''Invalid CSV format'')"
  using assms by (simp add: parseCSV_def)

theorem parseCSV_rejects_witness:
  "errors (ragged_parse ''a,b'') \<noteq> []
   \<and> row_level_errors (ragged_parse ''a,b'') \<noteq> []
   \<and> data (ragged_parse ''a,b'') \<noteq> []
   \<and> parseCSV ragged_parse example_clock example_iso ''a,b'' = Inl (Error ''Invalid CSV format'')"
  using parseCSV_rejects[of ragged_parse "''a,b''" example_clock example_iso]
  by (simp add: ragged_parse_def row_level_errors_def)

text \<open>Decimal numerals: no dash occurs in them, and different numbers print differently.\<close>

lemma digit_char_inj:
  assumes "a < 10" and "b < 10" and "digit_char a = digit_char b"
  shows "a = b"
proof -
  have "distinct ''0123456789''"
    by simp
  moreover have "a < length ''0123456789''" and "b < length ''0123456789''"
    using assms by simp_all
  ultimately show ?thesis
    using assms(3) unfolding digit_char_def by (simp only: nth_eq_iff_index_eq)
qed

lemma digit_char_not_dash:
  assumes "d < 10"
  shows "digit_char d \<noteq> CHR ''-''"
proof -
  from assms have "''0123456789'' ! d \<in> set ''0123456789''"
    by (intro nth_mem) simp
  then show ?thesis
    unfolding digit_char_def by auto
qed

lemma decimal_small: "n < 10 \<Longrightarrow> decimal n = [digit_char n]"
  by (subst decimal.simps) simp

lemma decimal_large: "\<not> n < 10 \<Longrightarrow> decimal n = decimal (n div 10) @ [digit_char (n mod 10)]"
  by (subst decimal.simps) simp

lemma decimal_nonempty: "decimal n \<noteq> []"
proof (cases "n < 10")
  case True
  then have "decimal n = [digit_char n]" by (rule decimal_small)
  then show ?thesis by simp
next
  case False
  then have "decimal n = decimal (n div 10) @ [digit_char (n mod 10)]" by (rule decimal_large)
  then show ?thesis by simp
qed

lemma decimal_no_dash: "CHR ''-'' \<notin> set (decimal n)"
proof (induction n rule: less_induct)
  case (less n)
  show ?case
  proof (cases "n < 10")
    case True
    then have "decimal n = [digit_char n]" by (rule decimal_small)
    then show ?thesis using digit_char_not_dash[OF True] by auto
  next
    case False
    then have dn: "decimal n = decimal (n div 10) @ [digit_char (n mod 10)]"
      by (rule decimal_large)
    from False have "n div 10 < n" by simp
    then have "CHR ''-'' \<notin> set (decimal (n div 10))" by (rule less.IH)
    moreover have "digit_char (n mod 10) \<noteq> CHR ''-''" by (rule digit_char_not_dash) simp
    ultimately show ?thesis using dn by auto
  qed
qed

lemma decimal_large_length:
  assumes "\<not> n < 10"
  shows "2 \<le> length (decimal n)"
proof -
  from assms have "decimal n = decimal (n div 10) @ [digit_char (n mod 10)]"
    by (rule decimal_large)
  moreover have "decimal (n div 10) \<noteq> []"
    by (rule decimal_nonempty)
  ultimately show ?thesis
    by (cases "decimal (n div 10)") simp_all
qed

lemma decimal_inj: "decimal n = decimal m \<Longrightarrow> n = m"
proof (induction n arbitrary: m rule: less_induct)
  case (less n)
  show ?case
  proof (cases "n < 10")
    case n: True
    then have dn: "decimal n = [digit_char n]" by (rule decimal_small)
    show ?thesis
    proof (cases "m < 10")
      case True
      then have "decimal m = [digit_char m]" by (rule decimal_small)
      with dn less.prems have "digit_char n = digit_char m" by simp
      with n True show ?thesis by (rule digit_char_inj)
    next
      case False
      then have "2 \<le> length (decimal m)" by (rule decimal_large_length)
      with dn less.prems show ?thesis by simp
    qed
  next
    case n: False
    then have dn: "decimal n = decimal (n div 10) @ [digit_char (n mod 10)]"
      by (rule decimal_large)
    show ?thesis
    proof (cases "m < 10")
      case True
      then have "decimal m = [digit_char m]" by (rule decimal_small)
      moreover from n have "2 \<le> length (decimal n)" by (rule decimal_large_length)
      ultimately show ?thesis using less.prems by simp
    next
      case False
      then have "decimal m = decimal (m div 10) @ [digit_char (m mod 10)]"
        by (rule decimal_large)
      with dn less.prems have eq: "decimal (n div 10) = decimal (m div 10)"
        and d: "digit_char (n mod 10) = digit_char (m mod 10)"
        by simp_all
      from n have "n div 10 < n" by simp
      then have "n div 10 = m div 10" using eq by (rule less.IH)
      moreover have "n mod 10 = m mod 10" using d by (intro digit_char_inj) simp_all
      ultimately show ?thesis by (metis div_mult_mod_eq)
    qed
  qed
qed

lemma imported_id_inj:
  assumes "''imported-'' @ decimal a @ ''-'' @ decimal i = ''imported-'' @ decimal b @ ''-'' @ decimal j"
  shows "i = j"
proof -
  from assms have "decimal a @ CHR ''-'' # decimal i = decimal b @ CHR ''-'' # decimal j"
    by simp
  then have "decimal a = decimal b \<and> decimal i = decimal j"
    by (rule split_at_sep[OF decimal_no_dash decimal_no_dash])
  then have "decimal i = decimal j" ..
  then show ?thesis by (rule decimal_inj)
qed

text \<open>
  Claim C3, as stated, fails: \<open>parseCSV\<close> rejects a text as soon as the parser reports
  any error, also one that is not about a row. For the one-column file with the header
  \<open>name\<close> and the two rows \<open>Jane\<close> and \<open>Raj\<close> the parser delivers both rows and no
  row-level error, only the note that no delimiter could be detected, and \<open>parseCSV\<close>
  throws instead of returning two leads.
\<close>

theorem parseCSV_rejects_one_column:
  "row_level_errors (one_column_parse one_column_csv) = []
   \<and> length (data (one_column_parse one_column_csv)) = 2
   \<and> parseCSV one_column_parse example_clock example_iso one_column_csv
       = Inl (Error ''Invalid CSV format'')"
  by (simp add: parseCSV_def one_column_parse_def row_level_errors_def)

text \<open>
  Claim C3, amended: when the parser reports no error at all (neither about a row nor
  about the file), \<open>parseCSV\<close> returns one lead per parsed row, in order; the ids of the
  batch are pairwise different; and every lead has its six fields: a missing or empty
  \<open>created_time\<close> becomes the current timestamp, a missing or empty \<open>lead_status\<close>
  becomes \<open>New Lead\<close>, and a missing \<open>platform\<close>, \<open>name\<close>, \<open>whatsapp_number_\<close> or
  \<open>comments\<close> becomes the empty string.
\<close>

theorem parseCSV_shape:
  assumes "errors (Papa_parse csvText) = []"
  shows "\<exists>ls. parseCSV Papa_parse Date_now toISOString csvText = Inr ls
    \<and> length ls = length (data (Papa_parse csvText))
    \<and> distinct (map lead_id ls)
    \<and> (\<forall>i < length ls.
          lead_id (ls ! i) \<noteq> None
        \<and> created_time (ls ! i) =
            (case row_created_time (data (Papa_parse csvText) ! i) of
               None \<Rightarrow> toISOString (Date_now i)
             | Some s \<Rightarrow> if s = [] then toISOString (Date_now i) else s)
        \<and> platform (ls ! i) =
            (case row_platform (data (Papa_parse csvText) ! i) of None \<Rightarrow> [] | Some s \<Rightarrow> s)
        \<and> name (ls ! i) =
            (case row_name (data (Papa_parse csvText) ! i) of None \<Rightarrow> [] | Some s \<Rightarrow> s)
        \<and> whatsapp_number (ls ! i) =
            (case row_whatsapp_number (data (Papa_parse csvText) ! i) of
               None \<Rightarrow> [] | Some s \<Rightarrow> s)
        \<and> comments (ls ! i) =
            (case row_comments (data (Papa_parse csvText) ! i) of None \<Rightarrow> [] | Some s \<Rightarrow> s)
        \<and> lead_status (ls ! i) =
            (case row_lead_status (data (Papa_parse csvText) ! i) of
               None \<Rightarrow> ''New Lead''
             | Some s \<Rightarrow> if s = [] then ''New Lead'' else s))"
proof -
  let ?rows = "data (Papa_parse csvText)"
  define ls where
    "ls = map (\<lambda>(index, row). row_to_lead Date_now toISOString index row) (enumerate 0 ?rows)"
  have res: "parseCSV Papa_parse Date_now toISOString csvText = Inr ls"
    using assms by (simp add: parseCSV_def ls_def)
  have len: "length ls = length ?rows"
    by (simp add: ls_def)
  have nth: "ls ! i = row_to_lead Date_now toISOString i (?rows ! i)" if "i < length ?rows" for i
    using that by (simp add: ls_def nth_enumerate_eq)
  have neq: "lead_id (ls ! i) \<noteq> lead_id (ls ! j)"
    if "i < length ?rows" and "j < length ?rows" and "i \<noteq> j" for i j
  proof
    assume "lead_id (ls ! i) = lead_id (ls ! j)"
    with that(1,2) have "''imported-'' @ decimal (Date_now i) @ ''-'' @ decimal i
        = ''imported-'' @ decimal (Date_now j) @ ''-'' @ decimal j"
      by (simp only: nth) (simp add: row_to_lead_def)
    then have "i = j" by (rule imported_id_inj)
    with that(3) show False by simp
  qed
  have dist: "distinct (map lead_id ls)"
    using neq by (simp add: distinct_conv_nth len)
  have fields: "lead_id (ls ! i) \<noteq> None
        \<and> created_time (ls ! i) =
            (case row_created_time (?rows ! i) of
               None \<Rightarrow> toISOString (Date_now i)
             | Some s \<Rightarrow> if s = [] then toISOString (Date_now i) else s)
        \<and> platform (ls ! i) = (case row_platform (?rows ! i) of None \<Rightarrow> [] | Some s \<Rightarrow> s)
        \<and> name (ls ! i) = (case row_name (?rows ! i) of None \<Rightarrow> [] | Some s \<Rightarrow> s)
        \<and> whatsapp_number (ls ! i) =
            (case row_whatsapp_number (?rows ! i) of None \<Rightarrow> [] | Some s \<Rightarrow> s)
        \<and> comments (ls ! i) = (case row_comments (?rows ! i) of None \<Rightarrow> [] | Some s \<Rightarrow> s)
        \<and> lead_status (ls ! i) =
            (case row_lead_status (?rows ! i) of
               None \<Rightarrow> ''New Lead''
             | Some s \<Rightarrow> if s = [] then ''New Lead'' else s)"
    if "i < length ?rows" for i
    by (simp only: nth[OF that]) (simp add: row_to_lead_def or_default_def split: option.splits)
  from fields len have all: "\<forall>i < length ls. lead_id (ls ! i) \<noteq> None
        \<and> created_time (ls ! i) =
            (case row_created_time (?rows ! i) of
               None \<Rightarrow> toISOString (Date_now i)
             | Some s \<Rightarrow> if s = [] then toISOString (Date_now i) else s)
        \<and> platform (ls ! i) = (case row_platform (?rows ! i) of None \<Rightarrow> [] | Some s \<Rightarrow> s)
        \<and> name (ls ! i) = (case row_name (?rows ! i) of None \<Rightarrow> [] | Some s \<Rightarrow> s)
        \<and> whatsapp_number (ls ! i) =
            (case row_whatsapp_number (?rows ! i) of None \<Rightarrow> [] | Some s \<Rightarrow> s)
        \<and> comments (ls ! i) = (case row_comments (?rows ! i) of None \<Rightarrow> [] | Some s \<Rightarrow> s)
        \<and> lead_status (ls ! i) =
            (case row_lead_status (?rows ! i) of
               None \<Rightarrow> ''New Lead''
             | Some s \<Rightarrow> if s = [] then ''New Lead'' else s)"
    by simp
  from res len dist all show ?thesis
    by (intro exI[of _ ls] conjI)
qed

theorem parseCSV_shape_witness:
  "errors (clean_parse ''csv'') = []
   \<and> (\<exists>ls. parseCSV clean_parse example_clock example_iso ''csv'' = Inr ls
         \<and> length ls = 2
         \<and> distinct (map lead_id ls)
         \<and> lead_status (ls ! 0) = ''New Lead''
         \<and> name (ls ! 1) = ''Raj''
         \<and> created_time (ls ! 1) = ''2023-11-14T22:13:20.000Z'')"
proof -
  have e: "errors (clean_parse ''csv'') = []"
    by (simp add: clean_parse_def)
  from parseCSV_shape[where Papa_parse = clean_parse and csvText = "''csv''"
      and Date_now = example_clock and toISOString = example_iso, OF e]
  show ?thesis
    using e by (auto simp: clean_parse_def example_row_def example_iso_def)
qed

subsection \<open>Filtering\<close>

lemma includes_str_sublist: "includes_str s t \<longleftrightarrow> sublist t s"
  by (induction s) (auto simp: sublist_Cons_right)

text \<open>
  What \<open>ci_substring\<close> computes when the folding works character by character: some
  contiguous part of the text equals the term once both are folded.
\<close>

lemma ci_substring_meaning:
  "ci_substring (map f) t s \<longleftrightarrow> (\<exists>u. sublist u s \<and> map f u = map f t)"
proof
  assume "ci_substring (map f) t s"
  then have "sublist (map f t) (map f s)"
    by (simp add: ci_substring_def includes_str_sublist)
  then obtain u where "sublist u s" and "map f t = map f u"
    by (rule sublist_map_rightE [THEN exE]) blast
  then show "\<exists>u. sublist u s \<and> map f u = map f t"
    by auto
next
  assume "\<exists>u. sublist u s \<and> map f u = map f t"
  then obtain u ps ss where "s = ps @ u @ ss" and "map f u = map f t"
    by (auto simp: sublist_def)
  then have "map f s = map f ps @ map f t @ map f ss"
    by simp
  then show "ci_substring (map f) t s"
    by (simp add: ci_substring_def includes_str_sublist)
qed

text \<open>
  Claim C6, as stated, fails: the number is compared with the search term as typed, not
  case-insensitively. A lead whose number is \<open>p:+919876543210\<close> (and whose name and
  comments are empty) is not in the view for the search term \<open>P:+91\<close>, although the term
  occurs in the number up to case. (All texts here are ASCII, where the platform's
  folding is \<open>ascii_toLowerCase\<close>.)
\<close>

theorem filteredLeads_number_case_sensitive:
  "\<not> (example_lead ''p:+919876543210'' ''2024-01-01T00:00:00Z''
        \<in> set (filteredLeads ascii_toLowerCase zero_getTime
                 [example_lead ''p:+919876543210'' ''2024-01-01T00:00:00Z'']
                 ''P:+91'' ''all'' ''all'')
      \<longleftrightarrow>
        example_lead ''p:+919876543210'' ''2024-01-01T00:00:00Z''
          \<in> set [example_lead ''p:+919876543210'' ''2024-01-01T00:00:00Z'']
        \<and> (''all'' = ''all''
            \<or> lead_status (example_lead ''p:+919876543210'' ''2024-01-01T00:00:00Z'') = ''all'')
        \<and> (''all'' = ''all''
            \<or> platform (example_lead ''p:+919876543210'' ''2024-01-01T00:00:00Z'') = ''all'')
        \<and> spec_matchesSearch ascii_toLowerCase ''P:+91''
              (example_lead ''p:+919876543210'' ''2024-01-01T00:00:00Z''))"
  by (simp add: filteredLeads_def matchesSearch_def matchesStatus_def matchesPlatform_def
      spec_matchesSearch_def ci_substring_def example_lead_def ascii_toLowerCase_def
      ascii_toLowerChar_def)

text \<open>
  Claim C6, amended: whatever the platform's case folding is, a lead is in the filtered
  view if and only if it is in the list, the status filter is \<open>all\<close> or equals its
  status, the platform filter is \<open>all\<close> or equals its platform, and the search term
  occurs case-insensitively (folded term in folded text) in its name or in its comments,
  or occurs exactly as typed in its number.
\<close>

theorem filteredLeads_membership:
  "l \<in> set (filteredLeads toLowerCase getTime ls searchTerm statusFilter platformFilter) \<longleftrightarrow>
     l \<in> set ls
     \<and> (statusFilter = ''all'' \<or> lead_status l = statusFilter)
     \<and> (platformFilter = ''all'' \<or> platform l = platformFilter)
     \<and> (ci_substring toLowerCase searchTerm (name l)
        \<or> sublist searchTerm (whatsapp_number l)
        \<or> ci_substring toLowerCase searchTerm (comments l))"
  by (auto simp: filteredLeads_def matchesSearch_def matchesStatus_def matchesPlatform_def
      ci_substring_def includes_str_sublist)

theorem filteredLeads_membership_witness:
  "jane_lead \<in> set (filteredLeads ascii_toLowerCase zero_getTime [jane_lead]
                      ''jANE'' ''New Lead'' ''all'')
   \<and> jane_lead \<notin> set (filteredLeads ascii_toLowerCase zero_getTime [jane_lead]
                        ''jANE'' ''New Lead'' ''ig'')"
  using filteredLeads_membership[of jane_lead ascii_toLowerCase zero_getTime "[jane_lead]"
      "''jANE''" "''New Lead''" "''all''"]
    filteredLeads_membership[of jane_lead ascii_toLowerCase zero_getTime "[jane_lead]"
      "''jANE''" "''New Lead''" "''ig''"]
  by (simp add: jane_lead_def stored_lead_def example_lead_def ci_substring_def
      ascii_toLowerCase_def ascii_toLowerChar_def)

subsection \<open>Pagination\<close>

lemma totalPages_div: "totalPages xs = (length xs + 19) div 20"
proof -
  have "\<lceil>real (length xs) / 20\<rceil> = - (- int (length xs) div 20)"
    using ceiling_divide_eq_div[of "int (length xs)" 20] by simp
  also have "\<dots> = int ((length xs + 19) div 20)"
    by (simp add: zdiv_int)
  finally show ?thesis
    by (simp add: totalPages_def itemsPerPage_def)
qed

lemma paginatedLeads_take_drop:
  "1 \<le> p \<Longrightarrow> paginatedLeads xs (int p) = take 20 (drop ((p - 1) * 20) xs)"
  by (auto simp: paginatedLeads_def slice_def itemsPerPage_def Let_def min_def
      nat_diff_distrib nat_mult_distrib of_nat_diff algebra_simps)

lemma concat_pages:
  "concat (map (\<lambda>p. take n (drop ((p - 1) * n) xs)) [1..<Suc k]) = take (k * n) xs"
proof (induction k)
  case 0
  then show ?case by simp
next
  case (Suc k)
  have "take (Suc k * n) xs = take (k * n) xs @ take n (drop (k * n) xs)"
    using take_add[of "k * n" n xs] by (simp add: add.commute)
  with Suc show ?case by simp
qed

text \<open>
  Claim C8: for a list of length \<open>L\<close> the number of pages is the ceiling of \<open>L / 20\<close>;
  every page before the last has 20 items, the last page has \<open>L - 20 * (pages - 1)\<close>
  items, and the pages 1, 2, ..., in order, concatenate to the list.
\<close>

theorem pagination:
  "int (totalPages xs) = \<lceil>real (length xs) / 20\<rceil>
   \<and> (\<forall>p. 1 \<le> p \<and> p < totalPages xs \<longrightarrow> length (paginatedLeads xs (int p)) = 20)
   \<and> (\<forall>p. 1 \<le> p \<and> p = totalPages xs \<longrightarrow>
         length (paginatedLeads xs (int p)) = length xs - 20 * (totalPages xs - 1))
   \<and> concat (map (\<lambda>p. paginatedLeads xs (int p)) [1..<Suc (totalPages xs)]) = xs"
proof (intro conjI allI impI)
  show "int (totalPages xs) = \<lceil>real (length xs) / 20\<rceil>"
    by (simp add: totalPages_def itemsPerPage_def)
next
  fix p assume "1 \<le> p \<and> p < totalPages xs"
  then have "1 \<le> p" and "p < (length xs + 19) div 20"
    by (simp_all add: totalPages_div)
  then have "1 \<le> p" and "p * 20 \<le> length xs"
    by linarith+
  then show "length (paginatedLeads xs (int p)) = 20"
    by (simp add: paginatedLeads_take_drop)
next
  fix p assume "1 \<le> p \<and> p = totalPages xs"
  then have p: "1 \<le> p" "p = (length xs + 19) div 20"
    by (simp_all add: totalPages_div)
  then have "(p - 1) * 20 < length xs" "length xs \<le> p * 20"
    by linarith+
  with p show "length (paginatedLeads xs (int p)) = length xs - 20 * (totalPages xs - 1)"
    by (simp add: paginatedLeads_take_drop totalPages_div mult.commute)
next
  have "concat (map (\<lambda>p. paginatedLeads xs (int p)) [1..<Suc (totalPages xs)])
      = concat (map (\<lambda>p. take 20 (drop ((p - 1) * 20) xs)) [1..<Suc (totalPages xs)])"
    by (rule arg_cong[where f = concat], rule map_cong[OF refl])
       (auto simp: paginatedLeads_take_drop)
  also have "\<dots> = take (totalPages xs * 20) xs"
    by (rule concat_pages)
  also have "\<dots> = xs"
  proof -
    have "length xs \<le> totalPages xs * 20"
      unfolding totalPages_div by linarith
    then show ?thesis by simp
  qed
  finally show "concat (map (\<lambda>p. paginatedLeads xs (int p)) [1..<Suc (totalPages xs)]) = xs" .
qed

theorem pagination_witness:
  "totalPages [0..<45] = 3
   \<and> length (paginatedLeads [0..<45] 1) = 20
   \<and> paginatedLeads [0..<45] 3 = [40..<45]
   \<and> concat (map (\<lambda>p. paginatedLeads [0..<45] (int p)) [1..<4]) = [0..<45]"
proof -
  note pg = pagination[of "[0..<45]"]
  have tp: "totalPages [0..<45] = 3"
    using pg[THEN conjunct1] by simp
  have p1: "length (paginatedLeads [0..<45] 1) = 20"
    using pg[THEN conjunct2, THEN conjunct1, rule_format, of 1] tp by simp
  have "length (paginatedLeads [0..<45] 3) = 5"
    using pg[THEN conjunct2, THEN conjunct2, THEN conjunct1, rule_format, of 3] tp by simp
  moreover have "paginatedLeads [0..<45] 3 = drop 40 [0..<45]"
    by (simp add: paginatedLeads_def slice_def itemsPerPage_def)
  ultimately have p3: "paginatedLeads [0..<45] 3 = [40..<45]"
    by (simp add: drop_upt)
  have "concat (map (\<lambda>p. paginatedLeads [0..<45] (int p)) [1..<Suc (totalPages [0..<45])]) = [0..<45]"
    using pg by blast
  then have cc: "concat (map (\<lambda>p. paginatedLeads [0..<45] (int p)) [1..<4]) = [0..<45]"
    by (simp only: tp) (simp add: eval_nat_numeral)
  from tp p1 p3 cc show ?thesis by blast
qed

subsection \<open>Classification of a failed initial load\<close>

text \<open>
  The \<^verbatim>\<open>catch\<close> block sets the warning for an axios error with status 500 and sets
  the error text for everything else; it is the one handler of the first read, the sync
  and the second read.
\<close>

lemma load_catch_500:
  "load_catch (AxiosError (Some 500) msg) d
     = d\<lparr>warning := Some ''No leads available for your account''\<rparr>"
  by (simp add: load_catch_def)

lemma load_catch_other:
  "status \<noteq> Some 500 \<Longrightarrow>
     load_catch (AxiosError status msg) d = d\<lparr>error := ''Failed to load leads: '' @ msg\<rparr>"
  "load_catch (Error msg) d = d\<lparr>error := ''Failed to load leads: '' @ msg\<rparr>"
  "load_catch NonError d = d\<lparr>error := ''Failed to load leads due to an unknown error''\<rparr>"
  by (simp_all add: load_catch_def)

text \<open>
  The component shows the yellow box only when the error text is non-empty, and the box
  prints the warning state, not the error text.
\<close>

lemma render_WarningBox:
  "render d = WarningBox w \<longleftrightarrow> \<not> loading d \<and> error d \<noteq> [] \<and> w = warning d"
  by (auto simp: render_def)

lemma render_after_500:
  "error d = [] \<Longrightarrow>
     render (load_finally (load_catch (AxiosError (Some 500) msg) d)) = MainView (kpis d) (leads d)"
  by (simp add: render_def load_finally_def load_catch_def)

text \<open>
  Claim C9 does not hold of the code. When the feed answers with status 500 during the
  initial load, the warning state is set to \<open>No leads available for your account\<close> and
  the error text stays empty, but the component then renders the ordinary dashboard:
  the warning is not shown. When the load fails otherwise (here: nobody signed in), the
  error text carries the message, but the box that is rendered prints the warning
  state, which is unset.
\<close>

theorem load_500_warning_not_rendered:
  "warning (fst (load failing_env example_store initial_dashboard))
     = Some ''No leads available for your account''
   \<and> error (fst (load failing_env example_store initial_dashboard)) = []
   \<and> render (fst (load failing_env example_store initial_dashboard))
     = MainView (kpis (fst (load failing_env example_store initial_dashboard)))
         (leads (fst (load failing_env example_store initial_dashboard)))
   \<and> error (fst (load signed_out_env example_store initial_dashboard))
     = ''Failed to load leads: User not authenticated or phone number missing!!''
   \<and> render (fst (load signed_out_env example_store initial_dashboard)) = WarningBox None"
  by (simp add: load_def fetchLeadsFromFirestore_def sync_defs example_defs failing_env_def
      signed_out_env_def initial_dashboard_def load_finally_def load_catch_def setLeads_def
      render_def auth_error_def computeKPIs_def)

end
